theory Spec2Isabelle
  imports Main
begin

section \<open>Data model of \<^verbatim>\<open>database/userSign.py\<close>\<close>

text \<open>
  The two tables of \<^verbatim>\<open>CUserSignDB.initDB\<close>. The columns \<^verbatim>\<open>createdAt\<close> and
  \<^verbatim>\<open>updatedAt\<close> are filled by the database's clock, are never read by this module and are
  left out. Python integers and SQLite INT columns are \<open>int\<close>. The table \<^verbatim>\<open>userSignLog\<close> is
  a list of rows in insertion order (a new row goes to the end), its primary key
  \<^verbatim>\<open>(uid, signDate)\<close> is enforced by the insert. \<^verbatim>\<open>userSignSummary\<close> has the primary key
  \<^verbatim>\<open>uid\<close> and is a map from it; \<^verbatim>\<open>lastSignDate\<close> is the only nullable column.
  The columns \<^verbatim>\<open>signDate\<close> and \<^verbatim>\<open>lastSignDate\<close> are declared \<^verbatim>\<open>DATE\<close>: the database keeps
  a text in them as it is unless the text is a numeric literal, which no date string is
  (\<open>keptAsText\<close> and lemma \<open>date_keptAsText\<close> below). The model stores and compares
  these columns as the strings given, which is what the database does for every string it
  keeps as text; a statement about strings that are not dates says so.
\<close>

record signLogRow =
  log_uid :: string
  log_signDate :: string
  log_isSupplement :: int
  log_exp :: int
  log_point :: int

record signSummaryRow =
  sum_totalSignDays :: int
  sum_currentMonth :: string
  sum_monthSignDays :: int
  sum_lastSignDate :: "string option"
  sum_continuousDays :: int
  sum_supplementCount :: int

text \<open>
  The storage one call works on: the two tables and the balances that
  \<^verbatim>\<open>g_pDBService.user\<close> keeps for every user.
\<close>

record db =
  userSignLog :: "signLogRow list"
  userSignSummary :: "string \<rightharpoonup> signSummaryRow"
  userExp :: "string \<Rightarrow> int"
  userPoint :: "string \<Rightarrow> int"

text \<open>The exceptions that can arise inside \<^verbatim>\<open>sign\<close>; all are caught by its
  \<^verbatim>\<open>except Exception\<close>.\<close>

datatype error = StorageError | IntegrityError | ValueError | OverflowError

text \<open>The storage accesses of the module, in the order \<^verbatim>\<open>sign\<close> makes them, followed by
  the two read-only queries. A call's environment says which of them raise.\<close>

datatype step =
    HasSignedQuery | SummaryRead | TxBegin | LogInsert | SummaryWrite
  | LedgerGetExp | LedgerSetExp | LedgerGetPoint | LedgerSetPoint | TxCommit
  | RewardQuery | CountQuery

text \<open>
  What a call of \<^verbatim>\<open>sign\<close> reads from outside its arguments and the storage:
  \<^item> \<open>today1\<close>, \<open>today2\<close>: the strings
    \<^verbatim>\<open>g_pToolManager.dateTime().date().today().strftime("%Y-%m-%d")\<close> at line 121 and at
    line 126 (the clock is read twice);
  \<^item> \<open>faults\<close>: the storage accesses that raise during this call;
  \<^item> \<open>rBaseExp\<close> .. \<open>rExtraPoint\<close>: the raw outcomes of the four \<^verbatim>\<open>random.randint\<close> calls.
\<close>

record env =
  today1 :: string
  today2 :: string
  faults :: "step set"
  rBaseExp :: nat
  rBasePoint :: nat
  rExtraExp :: nat
  rExtraPoint :: nat

section \<open>Library functions the module calls\<close>

text \<open>\<^verbatim>\<open>random.randint(a, b)\<close>: an integer of the closed interval, chosen by the raw outcome
  \<open>r\<close>; an empty interval raises \<^verbatim>\<open>ValueError\<close>.\<close>

definition randint :: "int \<Rightarrow> int \<Rightarrow> nat \<Rightarrow> error + int" where
  "randint a b r =
     (if b < a then Inl ValueError else Inr (a + int (r mod nat (b - a + 1))))"

text \<open>\<^verbatim>\<open>int(x * 0.5)\<close>: the product is a float, exact for every \<open>x\<close> below \<open>2^53\<close> in
  absolute value, and \<^verbatim>\<open>int\<close> truncates it toward zero.\<close>

definition half :: "int \<Rightarrow> int" where
  "half x = (if 0 \<le> x then x div 2 else - ((- x) div 2))"

subsection \<open>Calendar dates\<close>

text \<open>The value of an ASCII digit (codes 48 to 57), nothing for another character.\<close>

definition digitVal :: "char \<Rightarrow> nat option" where
  "digitVal c =
     (let code = (of_char c :: nat) in
        if 48 \<le> code \<and> code \<le> 57 then Some (code - 48) else None)"

fun digitsVal :: "nat \<Rightarrow> string \<Rightarrow> nat option" where
  "digitsVal acc [] = Some acc"
| "digitsVal acc (c # cs) =
     (case digitVal c of None \<Rightarrow> None | Some v \<Rightarrow> digitsVal (10 * acc + v) cs)"

definition isLeap :: "nat \<Rightarrow> bool" where
  "isLeap y = (y mod 4 = 0 \<and> (y mod 100 \<noteq> 0 \<or> y mod 400 = 0))"

definition daysInMonth :: "nat \<Rightarrow> nat \<Rightarrow> nat" where
  "daysInMonth y m =
     (if m = 2 then (if isLeap y then 29 else 28)
      else if m = 4 \<or> m = 6 \<or> m = 9 \<or> m = 11 then 30 else 31)"

text \<open>
  \<^verbatim>\<open>strptime(s, "%Y-%m-%d")\<close> on the canonical form \<^verbatim>\<open>YYYY-MM-DD\<close>, which is the only form
  \<^verbatim>\<open>sign\<close> passes to it (the string equals \<open>today2\<close> there, an output of \<^verbatim>\<open>strftime\<close>):
  four digits, two digits, two digits, a date of the calendar, year 1 to 9999. Anything
  else is the \<^verbatim>\<open>ValueError\<close>.
\<close>

definition strptime :: "string \<Rightarrow> error + (nat \<times> nat \<times> nat)" where
  "strptime s =
     (if length s = 10 \<and> s ! 4 = CHR ''-'' \<and> s ! 7 = CHR ''-'' then
        (case (digitsVal 0 (take 4 s), digitsVal 0 (take 2 (drop 5 s)), digitsVal 0 (drop 8 s)) of
           (Some y, Some m, Some d) \<Rightarrow>
             if 1 \<le> y \<and> 1 \<le> m \<and> m \<le> 12 \<and> 1 \<le> d \<and> d \<le> daysInMonth y m
             then Inr (y, m, d) else Inl ValueError
         | _ \<Rightarrow> Inl ValueError)
      else Inl ValueError)"

text \<open>\<^verbatim>\<open>d - timedelta(days=1)\<close>; the day before 0001-01-01 is the \<^verbatim>\<open>OverflowError\<close>.\<close>

definition minusOneDay :: "nat \<times> nat \<times> nat \<Rightarrow> error + (nat \<times> nat \<times> nat)" where
  "minusOneDay ymd =
     (case ymd of (y, m, d) \<Rightarrow>
        if 1 < d then Inr (y, m, d - 1)
        else if 1 < m then Inr (y, m - 1, daysInMonth y (m - 1))
        else if 1 < y then Inr (y - 1, 12, 31)
        else Inl OverflowError)"

definition digitChar :: "nat \<Rightarrow> char" where
  "digitChar n = ''0123456789'' ! (n mod 10)"

text \<open>\<^verbatim>\<open>strftime("%Y-%m-%d")\<close>, zero padded. For a year below 1000 the C library decides
  whether \<^verbatim>\<open>%Y\<close> is padded to four digits; the statements about the string of a date
  keep to the years from 1000 on.\<close>

definition strftime :: "nat \<times> nat \<times> nat \<Rightarrow> string" where
  "strftime ymd =
     (case ymd of (y, m, d) \<Rightarrow>
        [digitChar (y div 1000), digitChar (y div 100), digitChar (y div 10), digitChar y]
        @ ''-'' @ [digitChar (m div 10), digitChar m]
        @ ''-'' @ [digitChar (d div 10), digitChar d])"

text \<open>Lines 142-145: \<^verbatim>\<open>prev_date = (strptime(signDate, "%Y-%m-%d") - timedelta(days=1)).strftime("%Y-%m-%d")\<close>.\<close>

definition prev_date :: "string \<Rightarrow> error + string" where
  "prev_date signDate =
     (case strptime signDate of
        Inl e \<Rightarrow> Inl e
      | Inr ymd \<Rightarrow> (case minusOneDay ymd of Inl e \<Rightarrow> Inl e | Inr p \<Rightarrow> Inr (strftime p)))"

section \<open>The module's operations\<close>

subsection \<open>Read-only queries\<close>

text \<open>\<^verbatim>\<open>hasSigned\<close> (lines 96-113): \<^verbatim>\<open>fetchone()\<close> of
  \<^verbatim>\<open>SELECT 1 FROM userSignLog WHERE uid=? AND signDate=? LIMIT 1\<close> is the first matching row
  or nothing; an exception of the query is caught and gives \<^verbatim>\<open>False\<close>. The date is
  compared as text, as the database compares a string it keeps as text.\<close>

definition hasSigned :: "step set \<Rightarrow> db \<Rightarrow> string \<Rightarrow> string \<Rightarrow> bool" where
  "hasSigned F s uid signDate =
     (if HasSignedQuery \<in> F then False
      else find (\<lambda>r. log_uid r = uid \<and> log_signDate r = signDate) (userSignLog s) \<noteq> None)"

text \<open>\<^verbatim>\<open>getUserSignRewardByDate\<close> (lines 45-72): the stored pair of the row, \<^verbatim>\<open>(0, 0)\<close> when
  there is none or when the query raises.\<close>

definition getUserSignRewardByDate :: "step set \<Rightarrow> db \<Rightarrow> string \<Rightarrow> string \<Rightarrow> int \<times> int" where
  "getUserSignRewardByDate F s uid date =
     (if RewardQuery \<in> F then (0, 0)
      else case find (\<lambda>r. log_uid r = uid \<and> log_signDate r = date) (userSignLog s) of
             None \<Rightarrow> (0, 0)
           | Some row \<Rightarrow> (log_exp row, log_point row))"

text \<open>SQLite's \<^verbatim>\<open>LIKE\<close>: \<^verbatim>\<open>%\<close> stands for any run of characters, \<^verbatim>\<open>_\<close> for one character,
  and ASCII letters match without regard to case.\<close>

definition asciiLower :: "char \<Rightarrow> char" where
  "asciiLower c =
     (let n = (of_char c :: nat) in if 65 \<le> n \<and> n \<le> 90 then char_of (n + 32) else c)"

fun sqlLike :: "string \<Rightarrow> string \<Rightarrow> bool" where
  "sqlLike [] t = (t = [])"
| "sqlLike (p # ps) t =
     (if p = CHR ''%'' then
        (sqlLike ps t \<or> (case t of [] \<Rightarrow> False | c # cs \<Rightarrow> sqlLike (p # ps) cs))
      else
        (case t of
           [] \<Rightarrow> False
         | c # cs \<Rightarrow> (p = CHR ''_'' \<or> asciiLower p = asciiLower c) \<and> sqlLike ps cs))"

text \<open>\<^verbatim>\<open>getUserSignCountByDate\<close> (lines 75-93):
  \<^verbatim>\<open>SELECT COUNT(*) FROM userSignLog WHERE uid=? AND signDate LIKE ?\<close> with the parameter
  \<^verbatim>\<open>f"{monthStr}-%"\<close>; \<^verbatim>\<open>0\<close> when the query raises.\<close>

definition getUserSignCountByDate :: "step set \<Rightarrow> db \<Rightarrow> string \<Rightarrow> string \<Rightarrow> int" where
  "getUserSignCountByDate F s uid monthStr =
     (if CountQuery \<in> F then 0
      else int (length (filter (\<lambda>r. log_uid r = uid \<and> sqlLike (monthStr @ ''-%'') (log_signDate r))
                         (userSignLog s))))"

subsection \<open>The steps of \<^verbatim>\<open>sign\<close>\<close>

text \<open>Lines 132-135: the summary row of the user, read before the transaction opens.\<close>

definition readSummary :: "step set \<Rightarrow> db \<Rightarrow> string \<Rightarrow> error + signSummaryRow option" where
  "readSummary F s uid =
     (if SummaryRead \<in> F then Inl StorageError else Inr (userSignSummary s uid))"

text \<open>Lines 137-149: the streak after this sign-in. A row object is truthy, so
  \<^verbatim>\<open>summary_row and not isSupplement\<close> asks for a row and a sign-in for today.\<close>

definition current_continuous_days ::
  "signSummaryRow option \<Rightarrow> int \<Rightarrow> string \<Rightarrow> error + int" where
  "current_continuous_days summary_row isSupp signDate =
     (case summary_row of
        None \<Rightarrow> Inr 1
      | Some row \<Rightarrow>
          if isSupp \<noteq> 0 then Inr 1
          else (case prev_date signDate of
                  Inl e \<Rightarrow> Inl e
                | Inr prev \<Rightarrow>
                    if sum_lastSignDate row = Some prev
                    then Inr (sum_continuousDays row + 1) else Inr 1))"

text \<open>Lines 154-155: the base reward.\<close>

definition baseReward :: "env \<Rightarrow> error + (int \<times> int)" where
  "baseReward e =
     (case randint 5 50 (rBaseExp e) of
        Inl x \<Rightarrow> Inl x
      | Inr base_exp \<Rightarrow>
          (case randint 200 2000 (rBasePoint e) of
             Inl x \<Rightarrow> Inl x
           | Inr base_point \<Rightarrow> Inr (base_exp, base_point)))"

text \<open>Lines 158-179: the streak bonus, whose range grows with the streak up to day 30.\<close>

definition extraReward :: "env \<Rightarrow> int \<Rightarrow> int \<Rightarrow> error + (int \<times> int)" where
  "extraReward e days isSupp =
     (if 1 < days \<and> isSupp = 0 then
        (let days_factor = min days 30 in
           case randint ((days_factor - 1) * 8) ((days_factor - 1) * 11) (rExtraExp e) of
             Inl x \<Rightarrow> Inl x
           | Inr extra_exp \<Rightarrow>
               (case randint ((days_factor - 1) * 500) ((days_factor - 1) * 1000) (rExtraPoint e) of
                  Inl x \<Rightarrow> Inl x
                | Inr extra_point \<Rightarrow> Inr (extra_exp, extra_point)))
      else Inr (0, 0))"

text \<open>Lines 151-188: base, bonus, their sum, and the halving of a supplement.\<close>

definition signReward :: "env \<Rightarrow> int \<Rightarrow> int \<Rightarrow> error + (int \<times> int)" where
  "signReward e days isSupp =
     (case baseReward e of
        Inl x \<Rightarrow> Inl x
      | Inr (base_exp, base_point) \<Rightarrow>
          (case extraReward e days isSupp of
             Inl x \<Rightarrow> Inl x
           | Inr (extra_exp, extra_point) \<Rightarrow>
               (let final_exp = base_exp + extra_exp;
                    final_point = base_point + extra_point
                in if isSupp \<noteq> 0 then Inr (half final_exp, half final_point)
                   else Inr (final_exp, final_point))))"

text \<open>Lines 193-196: the insert into \<^verbatim>\<open>userSignLog\<close>; a second row with the same primary key
  is refused by the database. The date is stored as the text given, as the database
  stores a string it keeps as text.\<close>

definition insertLog :: "step set \<Rightarrow> signLogRow \<Rightarrow> db \<Rightarrow> error option \<times> db" where
  "insertLog F row s =
     (if LogInsert \<in> F then (Some StorageError, s)
      else if find (\<lambda>r. log_uid r = log_uid row \<and> log_signDate r = log_signDate row)
                   (userSignLog s) \<noteq> None
      then (Some IntegrityError, s)
      else (None, s\<lparr>userSignLog := userSignLog s @ [row]\<rparr>))"

text \<open>Lines 199-212 and 236-237: the values written to the summary row, computed from the
  row read before the transaction (or the constants of a first row).\<close>

definition summaryValues ::
  "string \<Rightarrow> int \<Rightarrow> int \<Rightarrow> signSummaryRow option \<Rightarrow> signSummaryRow" where
  "summaryValues signDate isSupp days summary_row =
     (let month = take 7 signDate in
        case summary_row of
          Some row \<Rightarrow>
            \<lparr>sum_totalSignDays = sum_totalSignDays row + 1,
             sum_currentMonth = month,
             sum_monthSignDays =
               (if sum_currentMonth row = month then sum_monthSignDays row + 1 else 1),
             sum_lastSignDate = Some signDate,
             sum_continuousDays = days,
             sum_supplementCount =
               (if isSupp \<noteq> 0 then sum_supplementCount row + 1 else sum_supplementCount row)\<rparr>
        | None \<Rightarrow>
            \<lparr>sum_totalSignDays = 1, sum_currentMonth = month, sum_monthSignDays = 1,
             sum_lastSignDate = Some signDate, sum_continuousDays = 1,
             sum_supplementCount = (if isSupp \<noteq> 0 then 1 else 0)\<rparr>)"

text \<open>Lines 198-239: the summary row is updated when a row was read before the
  transaction, and inserted when there was none. The \<^verbatim>\<open>UPDATE\<close> sets every column of the
  model and touches nothing when no row has the uid; the \<^verbatim>\<open>INSERT\<close> is refused when one
  has it.\<close>

definition writeSummary ::
  "step set \<Rightarrow> string \<Rightarrow> string \<Rightarrow> int \<Rightarrow> int \<Rightarrow> signSummaryRow option \<Rightarrow> db
     \<Rightarrow> error option \<times> db" where
  "writeSummary F uid signDate isSupp days summary_row s =
     (let new = summaryValues signDate isSupp days summary_row in
        if SummaryWrite \<in> F then (Some StorageError, s)
        else if summary_row \<noteq> None then
          (if userSignSummary s uid = None then (None, s)
           else (None, s\<lparr>userSignSummary := (userSignSummary s)(uid \<mapsto> new)\<rparr>))
        else
          (if userSignSummary s uid \<noteq> None then (Some IntegrityError, s)
           else (None, s\<lparr>userSignSummary := (userSignSummary s)(uid \<mapsto> new)\<rparr>)))"

text \<open>
  Modelled from the spec: the accessors \<^verbatim>\<open>getUserExpByUid\<close>, \<^verbatim>\<open>updateUserExpByUid\<close>,
  \<^verbatim>\<open>getUserPointByUid\<close> and \<^verbatim>\<open>updateUserPointByUid\<close> of \<^verbatim>\<open>g_pDBService.user\<close> are not
  among the sources. The spec's ledger gives the current balance of a user and stores a new
  one, inside the transaction of the caller; a storage fault is an exception. Lines 242-246
  read the balance and store it increased by the reward, experience first.
\<close>

definition creditExp :: "step set \<Rightarrow> string \<Rightarrow> int \<Rightarrow> db \<Rightarrow> error option \<times> db" where
  "creditExp F uid final_exp s =
     (if LedgerGetExp \<in> F then (Some StorageError, s)
      else (let currentExp = userExp s uid in
              if LedgerSetExp \<in> F then (Some StorageError, s)
              else (None, s\<lparr>userExp := (userExp s)(uid := currentExp + final_exp)\<rparr>)))"

text \<open>Modelled from the spec: the same for the point balance, after the experience.\<close>

definition creditPoint :: "step set \<Rightarrow> string \<Rightarrow> int \<Rightarrow> db \<Rightarrow> error option \<times> db" where
  "creditPoint F uid final_point s =
     (if LedgerGetPoint \<in> F then (Some StorageError, s)
      else (let currentPoint = userPoint s uid in
              if LedgerSetPoint \<in> F then (Some StorageError, s)
              else (None, s\<lparr>userPoint := (userPoint s)(uid := currentPoint + final_point)\<rparr>)))"

text \<open>One statement after the other; an exception skips the rest and leaves the storage
  as the statements before it made it.\<close>

definition andThen ::
  "(db \<Rightarrow> error option \<times> db) \<Rightarrow> (db \<Rightarrow> error option \<times> db) \<Rightarrow> db \<Rightarrow> error option \<times> db" where
  "andThen f g s = (case f s of (Some e, s') \<Rightarrow> (Some e, s') | (None, s') \<Rightarrow> g s')"

text \<open>Lines 192-246: the body of the \<^verbatim>\<open>async with cls._transaction()\<close> block.\<close>

definition signWrites ::
  "step set \<Rightarrow> string \<Rightarrow> string \<Rightarrow> int \<Rightarrow> int \<Rightarrow> signSummaryRow option \<Rightarrow> int \<Rightarrow> int
     \<Rightarrow> db \<Rightarrow> error option \<times> db" where
  "signWrites F uid signDate isSupp days summary_row final_exp final_point =
     andThen (insertLog F \<lparr>log_uid = uid, log_signDate = signDate, log_isSupplement = isSupp,
                           log_exp = final_exp, log_point = final_point\<rparr>)
    (andThen (writeSummary F uid signDate isSupp days summary_row)
    (andThen (creditExp F uid final_exp)
             (creditPoint F uid final_point)))"

text \<open>
  Modelled from the spec: \<^verbatim>\<open>CSqlManager._transaction\<close> is defined in \<^verbatim>\<open>database.py\<close>, which
  is not among the sources. By the spec the block is one atomic transaction: its effects
  are committed together, and an exception inside it (or a failing begin or commit)
  aborts the transaction, leaves the storage unchanged and goes on to the caller.
\<close>

definition transaction ::
  "step set \<Rightarrow> (db \<Rightarrow> error option \<times> db) \<Rightarrow> db \<Rightarrow> error option \<times> db" where
  "transaction F body s =
     (if TxBegin \<in> F then (Some StorageError, s)
      else (case body s of
              (Some e, s') \<Rightarrow> (Some e, s)
            | (None, s') \<Rightarrow> if TxCommit \<in> F then (Some StorageError, s) else (None, s')))"

subsection \<open>\<^verbatim>\<open>sign\<close>\<close>

text \<open>
  \<^verbatim>\<open>CUserSignDB.sign\<close> (lines 116-252). Lines 120-121 put today's date for an empty
  argument, line 128 marks every other date than today's as a supplement. The result is the
  integer the source returns: \<open>2\<close> when \<^verbatim>\<open>hasSigned\<close> answers yes, \<open>1\<close> after the
  transaction, \<open>0\<close> from the \<^verbatim>\<open>except Exception\<close> handler; with it comes the storage the
  call leaves.
\<close>

definition effectiveDate :: "env \<Rightarrow> string \<Rightarrow> string" where
  "effectiveDate e signDate0 = (if signDate0 = [] then today1 e else signDate0)"

definition supplementFlag :: "env \<Rightarrow> string \<Rightarrow> int" where
  "supplementFlag e signDate = (if signDate = today2 e then 0 else 1)"

definition sign :: "env \<Rightarrow> string \<Rightarrow> string \<Rightarrow> db \<Rightarrow> int \<times> db" where
  "sign e uid signDate0 s =
     (let signDate = effectiveDate e signDate0 in
        if hasSigned (faults e) s uid signDate then (2, s)
        else
          (let isSupp = supplementFlag e signDate
           in case readSummary (faults e) s uid of
                Inl x \<Rightarrow> (0, s)
              | Inr summary_row \<Rightarrow>
                  (case current_continuous_days summary_row isSupp signDate of
                     Inl x \<Rightarrow> (0, s)
                   | Inr days \<Rightarrow>
                       (case signReward e days isSupp of
                          Inl x \<Rightarrow> (0, s)
                        | Inr (final_exp, final_point) \<Rightarrow>
                            (case transaction (faults e)
                                    (signWrites (faults e) uid signDate isSupp days summary_row
                                       final_exp final_point) s of
                               (Some x, s') \<Rightarrow> (0, s')
                             | (None, s') \<Rightarrow> (1, s'))))))"

text \<open>A run of calls, one after the other: the results in order and the storage at the end.\<close>

fun signs :: "(env \<times> string \<times> string) list \<Rightarrow> db \<Rightarrow> int list \<times> db" where
  "signs [] s = ([], s)"
| "signs ((e, uid, signDate) # cs) s =
     (case sign e uid signDate s of
        (r, s') \<Rightarrow> (case signs cs s' of (rs, s'') \<Rightarrow> (r # rs, s'')))"

text \<open>The storage after \<^verbatim>\<open>initDB\<close> on a fresh database: both tables empty, all balances
  at \<open>0\<close>.\<close>

definition emptyDB :: db where
  "emptyDB = \<lparr>userSignLog = [], userSignSummary = Map.empty,
              userExp = (\<lambda>u. 0), userPoint = (\<lambda>u. 0)\<rparr>"

text \<open>A call's environment on a given day with no storage fault.\<close>

definition quietDay :: "string \<Rightarrow> nat \<Rightarrow> nat \<Rightarrow> nat \<Rightarrow> nat \<Rightarrow> env" where
  "quietDay today r1 r2 r3 r4 =
     \<lparr>today1 = today, today2 = today, faults = {},
      rBaseExp = r1, rBasePoint = r2, rExtraExp = r3, rExtraPoint = r4\<rparr>"

section \<open>Notions used in the statements\<close>

text \<open>The storage after the transaction of \<^verbatim>\<open>sign\<close> went through: the new log row, the
  summary row written from the one read before, both balances increased.\<close>

definition committed :: "string \<Rightarrow> string \<Rightarrow> int \<Rightarrow> int \<Rightarrow> int \<Rightarrow> int \<Rightarrow> db \<Rightarrow> db" where
  "committed uid signDate isSupp days final_exp final_point s =
     s\<lparr>userSignLog := userSignLog s @
          [\<lparr>log_uid = uid, log_signDate = signDate, log_isSupplement = isSupp,
            log_exp = final_exp, log_point = final_point\<rparr>],
       userSignSummary := (userSignSummary s)(uid \<mapsto>
          summaryValues signDate isSupp days (userSignSummary s uid)),
       userExp := (userExp s)(uid := userExp s uid + final_exp),
       userPoint := (userPoint s)(uid := userPoint s uid + final_point)\<rparr>"

text \<open>The log rows of one user, oldest first.\<close>

definition userRows :: "db \<Rightarrow> string \<Rightarrow> signLogRow list" where
  "userRows s uid = filter (\<lambda>r. log_uid r = uid) (userSignLog s)"

text \<open>The number of a user's log rows whose date lies in a month \<^verbatim>\<open>YYYY-MM\<close>.\<close>

definition rowsInMonth :: "db \<Rightarrow> string \<Rightarrow> string \<Rightarrow> nat" where
  "rowsInMonth s uid month =
     length (filter (\<lambda>r. take 7 (log_signDate r) = month) (userRows s uid))"

text \<open>The number of a user's latest log rows, back from the newest, that lie in a month
  without a row of another month between them.\<close>

definition latestMonthRun :: "db \<Rightarrow> string \<Rightarrow> string \<Rightarrow> nat" where
  "latestMonthRun s uid month =
     length (takeWhile (\<lambda>r. take 7 (log_signDate r) = month) (rev (userRows s uid)))"

text \<open>The summary of every user follows the user's log rows: no summary row without a log
  row and none missing; the total is the number of the rows, the stored month is that of
  the newest row, and the month counter is the length of the newest run of rows in it.\<close>

definition summaryTracksLog :: "db \<Rightarrow> bool" where
  "summaryTracksLog s =
     (\<forall>uid. case userSignSummary s uid of
              None \<Rightarrow> userRows s uid = []
            | Some row \<Rightarrow>
                userRows s uid \<noteq> [] \<and>
                sum_totalSignDays row = int (length (userRows s uid)) \<and>
                sum_currentMonth row = take 7 (log_signDate (last (userRows s uid))) \<and>
                sum_monthSignDays row = int (latestMonthRun s uid (sum_currentMonth row)))"

text \<open>A date of the calendar, year 1 to 9999, as \<^verbatim>\<open>datetime.date\<close> accepts it.\<close>

definition validDate :: "nat \<times> nat \<times> nat \<Rightarrow> bool" where
  "validDate ymd =
     (case ymd of (y, m, d) \<Rightarrow>
        1 \<le> y \<and> y \<le> 9999 \<and> 1 \<le> m \<and> m \<le> 12 \<and> 1 \<le> d \<and> d \<le> daysInMonth y m)"




text \<open>
  The columns \<^verbatim>\<open>signDate\<close> and \<^verbatim>\<open>lastSignDate\<close> are declared \<^verbatim>\<open>DATE\<close>, which gives them
  SQLite's NUMERIC affinity: a text that is a well-formed integer or real literal (spaces,
  an optional sign, digits with an optional point, an optional exponent \<^verbatim>\<open>e\<close> with its own
  optional sign and digits, spaces) is stored and compared as a number, every other text
  as the text it is. A text is certainly kept as text when it holds a character that no
  such literal has, or a sign right after a digit; every date \<^verbatim>\<open>YYYY-MM-DD\<close> is of the
  second kind.
\<close>

definition numericChar :: "char \<Rightarrow> bool" where
  "numericChar c =
     (let code = (of_char c :: nat) in
        (48 \<le> code \<and> code \<le> 57) \<or> code = 43 \<or> code = 45 \<or> code = 46 \<or>
        code = 69 \<or> code = 101 \<or> code = 32 \<or> (9 \<le> code \<and> code \<le> 13))"

fun signAfterDigit :: "string \<Rightarrow> bool" where
  "signAfterDigit (a # b # cs) =
     ((digitVal a \<noteq> None \<and> (b = CHR ''-'' \<or> b = CHR ''+'')) \<or> signAfterDigit (b # cs))"
| "signAfterDigit cs = False"

definition keptAsText :: "string \<Rightarrow> bool" where
  "keptAsText s = ((\<exists>c \<in> set s. \<not> numericChar c) \<or> signAfterDigit s)"

subsection \<open>Example storages and calls\<close>

text \<open>User \<^verbatim>\<open>u1\<close> signed on 2025-05-01, the first sign-in of the database.\<close>

definition firstDay :: db where
  "firstDay = snd (sign (quietDay ''2025-05-01'' 0 0 0 0) ''u1'' ''2025-05-01'' emptyDB)"

text \<open>User \<^verbatim>\<open>u1\<close> signed on 2025-05-01 and on 2025-05-02, each on the day itself.\<close>

definition twoDayStreak :: db where
  "twoDayStreak =
     snd (signs [(quietDay ''2025-05-01'' 0 0 0 0, ''u1'', ''2025-05-01''),
                 (quietDay ''2025-05-02'' 0 0 0 0, ''u1'', [])] emptyDB)"

text \<open>User \<^verbatim>\<open>u1\<close> signs on 2025-05-01, supplements 2025-04-30 on the same day, and signs
  on 2025-05-02.\<close>

definition backAndForth :: "(env \<times> string \<times> string) list" where
  "backAndForth =
     [(quietDay ''2025-05-01'' 0 0 0 0, ''u1'', ''2025-05-01''),
      (quietDay ''2025-05-01'' 3 5 0 0, ''u1'', ''2025-04-30''),
      (quietDay ''2025-05-02'' 0 0 0 0, ''u1'', [])]"

text \<open>A call on 2025-05-02 during which the last write of the transaction, the store of
  the new point balance, raises.\<close>

definition pointStoreFails :: env where
  "pointStoreFails =
     \<lparr>today1 = ''2025-05-02'', today2 = ''2025-05-02'', faults = {LedgerSetPoint},
      rBaseExp = 7, rBasePoint = 9, rExtraExp = 2, rExtraPoint = 100\<rparr>"

text \<open>A call on 2025-05-02 during which the query of \<^verbatim>\<open>hasSigned\<close> raises.\<close>

definition signedQueryFails :: env where
  "signedQueryFails =
     \<lparr>today1 = ''2025-05-02'', today2 = ''2025-05-02'', faults = {HasSignedQuery},
      rBaseExp = 7, rBasePoint = 9, rExtraExp = 2, rExtraPoint = 100\<rparr>"

section \<open>Supporting lemmas\<close>

lemmas sign_eval =
  signs.simps sign_def effectiveDate_def supplementFlag_def quietDay_def emptyDB_def
  hasSigned_def readSummary_def current_continuous_days_def signReward_def baseReward_def
  extraReward_def randint_def half_def transaction_def signWrites_def andThen_def
  insertLog_def writeSummary_def summaryValues_def creditExp_def creditPoint_def
  prev_date_def strptime_def minusOneDay_def strftime_def digitChar_def digitVal_def
  daysInMonth_def isLeap_def getUserSignCountByDate_def getUserSignRewardByDate_def
  asciiLower_def Let_def

subsection \<open>Random draws and the reward\<close>


lemma randint_onto: "a \<le> v \<Longrightarrow> v \<le> b \<Longrightarrow> randint a b (nat (v - a)) = Inr v"
  by (simp add: randint_def)

lemma baseReward_total: "\<exists>be bp. baseReward e = Inr (be, bp)"
  by (simp add: baseReward_def randint_def)


lemma extraReward_total: "\<exists>xe xp. extraReward e days isS = Inr (xe, xp)"
  by (simp add: extraReward_def randint_def Let_def min_def)



lemma signReward_total: "\<exists>fe fp. signReward e days isS = Inr (fe, fp)"
proof -
  obtain be bp where b: "baseReward e = Inr (be, bp)" using baseReward_total by blast
  obtain xe xp where x: "extraReward e days isS = Inr (xe, xp)"
    using extraReward_total by blast
  show ?thesis by (simp add: signReward_def b x Let_def)
qed


subsection \<open>The streak\<close>

lemma ccd_supplement: "isS \<noteq> 0 \<Longrightarrow> current_continuous_days sr isS d = Inr 1"
  by (simp add: current_continuous_days_def split: option.splits)

lemma ccd_total:
  "isS \<noteq> 0 \<or> sr = None \<or> (\<exists>p. prev_date d = Inr p) \<Longrightarrow>
     \<exists>days. current_continuous_days sr isS d = Inr days"
  by (auto simp: current_continuous_days_def split: option.splits)

subsection \<open>When \<^verbatim>\<open>sign\<close> succeeds, and what it leaves otherwise\<close>

lemma find_append_new: "find P xs = None \<Longrightarrow> P x \<Longrightarrow> find P (xs @ [x]) = Some x"
  by (induction xs) (auto split: if_splits)

lemma signWrites_ok_iff:
  "signWrites F uid d isS days (userSignSummary s uid) fe fp s = (None, s') \<longleftrightarrow>
     LogInsert \<notin> F \<and> SummaryWrite \<notin> F \<and> LedgerGetExp \<notin> F \<and> LedgerSetExp \<notin> F \<and>
     LedgerGetPoint \<notin> F \<and> LedgerSetPoint \<notin> F \<and>
     find (\<lambda>r. log_uid r = uid \<and> log_signDate r = d) (userSignLog s) = None \<and>
     s' = committed uid d isS days fe fp s"
  by (auto simp: signWrites_def andThen_def insertLog_def writeSummary_def creditExp_def
        creditPoint_def committed_def Let_def
      split: if_splits option.splits prod.splits)

lemma signWrites_ok_faults:
  "signWrites F uid d isS days sr fe fp s = (None, s') \<Longrightarrow>
     LogInsert \<notin> F \<and> SummaryWrite \<notin> F \<and> LedgerGetExp \<notin> F \<and> LedgerSetExp \<notin> F \<and>
     LedgerGetPoint \<notin> F \<and> LedgerSetPoint \<notin> F"
  by (auto simp: signWrites_def andThen_def insertLog_def writeSummary_def creditExp_def
        creditPoint_def Let_def
      split: if_splits option.splits prod.splits)

lemma transaction_ok_iff:
  "transaction F body s = (None, s') \<longleftrightarrow>
     TxBegin \<notin> F \<and> TxCommit \<notin> F \<and> body s = (None, s')"
  by (auto simp: transaction_def split: if_splits option.splits prod.splits)

lemma transaction_fail: "transaction F body s = (Some x, s') \<Longrightarrow> s' = s"
  by (auto simp: transaction_def split: if_splits option.splits prod.splits)

lemma transaction_faulty:
  assumes "F \<inter> {TxBegin, LogInsert, SummaryWrite, LedgerGetExp, LedgerSetExp,
                 LedgerGetPoint, LedgerSetPoint, TxCommit} \<noteq> {}"
  shows "\<exists>x. transaction F (signWrites F uid d isS days sr fe fp) s = (Some x, s)"
proof (cases "transaction F (signWrites F uid d isS days sr fe fp) s")
  case (Pair r s')
  show ?thesis
  proof (cases r)
    case None
    with Pair have "TxBegin \<notin> F \<and> TxCommit \<notin> F \<and>
        signWrites F uid d isS days sr fe fp s = (None, s')"
      by (simp add: transaction_ok_iff)
    with signWrites_ok_faults[of F uid d isS days sr fe fp s s'] assms
    show ?thesis by auto
  next
    case (Some x)
    with Pair transaction_fail[of F _ s x s'] show ?thesis by auto
  qed
qed

lemma sign_ok_iff:
  "sign e uid signDate0 s = (1, s') \<longleftrightarrow>
     \<not> hasSigned (faults e) s uid (effectiveDate e signDate0) \<and>
     SummaryRead \<notin> faults e \<and>
     (\<exists>days fe fp.
        current_continuous_days (userSignSummary s uid)
          (supplementFlag e (effectiveDate e signDate0)) (effectiveDate e signDate0) = Inr days \<and>
        signReward e days (supplementFlag e (effectiveDate e signDate0)) = Inr (fe, fp) \<and>
        transaction (faults e)
          (signWrites (faults e) uid (effectiveDate e signDate0)
             (supplementFlag e (effectiveDate e signDate0)) days (userSignSummary s uid) fe fp) s
          = (None, s'))"
  by (auto simp: sign_def readSummary_def Let_def
      split: if_splits sum.splits prod.splits option.splits)

lemma sign_not_ok_unchanged: "sign e uid signDate0 s = (r, s') \<Longrightarrow> r \<noteq> 1 \<Longrightarrow> s' = s"
  by (auto simp: sign_def readSummary_def Let_def dest: transaction_fail
      split: if_splits sum.splits prod.splits option.splits)

lemma sign_result_range: "fst (sign e uid signDate0 s) \<in> {0, 1, 2}"
  by (auto simp: sign_def readSummary_def Let_def
      split: if_splits sum.splits prod.splits option.splits)

lemma sign_ok_committed:
  assumes "sign e uid signDate0 s = (1, s')"
  shows "\<exists>days fe fp.
     current_continuous_days (userSignSummary s uid)
       (supplementFlag e (effectiveDate e signDate0)) (effectiveDate e signDate0) = Inr days \<and>
     signReward e days (supplementFlag e (effectiveDate e signDate0)) = Inr (fe, fp) \<and>
     find (\<lambda>r. log_uid r = uid \<and> log_signDate r = effectiveDate e signDate0) (userSignLog s)
       = None \<and>
     s' = committed uid (effectiveDate e signDate0)
            (supplementFlag e (effectiveDate e signDate0)) days fe fp s"
  using assms unfolding sign_ok_iff transaction_ok_iff signWrites_ok_iff by blast

lemma firstDay_ok:
  "sign (quietDay ''2025-05-01'' 0 0 0 0) ''u1'' ''2025-05-01'' emptyDB = (1, firstDay)"
  unfolding firstDay_def by (simp add: sign_eval)

lemma firstDay_eq:
  "firstDay =
     \<lparr>userSignLog = [\<lparr>log_uid = ''u1'', log_signDate = ''2025-05-01'', log_isSupplement = 0,
                      log_exp = 5, log_point = 200\<rparr>],
      userSignSummary = [''u1'' \<mapsto>
        \<lparr>sum_totalSignDays = 1, sum_currentMonth = ''2025-05'', sum_monthSignDays = 1,
         sum_lastSignDate = Some ''2025-05-01'', sum_continuousDays = 1,
         sum_supplementCount = 0\<rparr>],
      userExp = (\<lambda>u. 0)(''u1'' := 5), userPoint = (\<lambda>u. 0)(''u1'' := 200)\<rparr>"
  unfolding firstDay_def by (simp add: sign_eval)

subsection \<open>The summary and the log\<close>

lemma takeWhile_rev_last: "xs \<noteq> [] \<Longrightarrow> \<not> P (last xs) \<Longrightarrow> takeWhile P (rev xs) = []"
  by (cases xs rule: rev_cases) auto

lemma length_takeWhile_le_filter: "length (takeWhile P xs) \<le> length (filter P xs)"
  by (induction xs) auto

lemma userRows_committed_same:
  "userRows (committed uid d isS days fe fp s) uid =
     userRows s uid @ [\<lparr>log_uid = uid, log_signDate = d, log_isSupplement = isS,
                        log_exp = fe, log_point = fp\<rparr>]"
  by (simp add: userRows_def committed_def)

lemma userRows_committed_other:
  "u \<noteq> uid \<Longrightarrow> userRows (committed uid d isS days fe fp s) u = userRows s u"
  by (simp add: userRows_def committed_def)

lemma summary_committed_other:
  "u \<noteq> uid \<Longrightarrow> userSignSummary (committed uid d isS days fe fp s) u = userSignSummary s u"
  by (simp add: committed_def)

lemma summary_committed_same:
  "userSignSummary (committed uid d isS days fe fp s) uid =
     Some (summaryValues d isS days (userSignSummary s uid))"
  by (simp add: committed_def)

lemma summaryTracksLog_empty: "summaryTracksLog emptyDB"
  by (simp add: summaryTracksLog_def emptyDB_def userRows_def)

lemma summaryTracksLog_committed:
  assumes inv: "summaryTracksLog s"
  shows "summaryTracksLog (committed uid d isS days fe fp s)"
  unfolding summaryTracksLog_def
proof
  fix u
  let ?s' = "committed uid d isS days fe fp s"
  from inv have old: "case userSignSummary s u of
              None \<Rightarrow> userRows s u = []
            | Some row \<Rightarrow>
                userRows s u \<noteq> [] \<and>
                sum_totalSignDays row = int (length (userRows s u)) \<and>
                sum_currentMonth row = take 7 (log_signDate (last (userRows s u))) \<and>
                sum_monthSignDays row = int (latestMonthRun s u (sum_currentMonth row))"
    unfolding summaryTracksLog_def by blast
  show "case userSignSummary ?s' u of
              None \<Rightarrow> userRows ?s' u = []
            | Some row \<Rightarrow>
                userRows ?s' u \<noteq> [] \<and>
                sum_totalSignDays row = int (length (userRows ?s' u)) \<and>
                sum_currentMonth row = take 7 (log_signDate (last (userRows ?s' u))) \<and>
                sum_monthSignDays row = int (latestMonthRun ?s' u (sum_currentMonth row))"
  proof (cases "u = uid")
    case False
    then show ?thesis
      using old
      by (simp add: summary_committed_other userRows_committed_other latestMonthRun_def
          split: option.splits)
  next
    case True
    show ?thesis
    proof (cases "userSignSummary s uid")
      case None
      with old True have "userRows s uid = []" by simp
      then show ?thesis
        using None True
        by (simp add: summary_committed_same userRows_committed_same latestMonthRun_def
            summaryValues_def Let_def)
    next
      case (Some row)
      with old True have
        ne: "userRows s uid \<noteq> []" and
        tot: "sum_totalSignDays row = int (length (userRows s uid))" and
        mon: "sum_currentMonth row = take 7 (log_signDate (last (userRows s uid)))" and
        run: "sum_monthSignDays row = int (latestMonthRun s uid (sum_currentMonth row))"
        by simp_all
      show ?thesis
      proof (cases "sum_currentMonth row = take 7 d")
        case same: True
        then show ?thesis
          using Some True tot run
          by (simp add: summary_committed_same userRows_committed_same latestMonthRun_def
              summaryValues_def Let_def)
      next
        case other: False
        with mon have "\<not> (\<lambda>r. take 7 (log_signDate r) = take 7 d) (last (userRows s uid))"
          by simp
        with ne have "takeWhile (\<lambda>r. take 7 (log_signDate r) = take 7 d) (rev (userRows s uid)) = []"
          by (rule takeWhile_rev_last)
        then show ?thesis
          using Some True tot other
          by (simp add: summary_committed_same userRows_committed_same latestMonthRun_def
              summaryValues_def Let_def)
      qed
    qed
  qed
qed

lemma summaryTracksLog_sign:
  assumes inv: "summaryTracksLog s" and call: "sign e uid signDate0 s = (r, s')"
  shows "summaryTracksLog s'"
proof (cases "r = 1")
  case True
  with call sign_ok_committed[of e uid signDate0 s s'] obtain days fe fp where
    "s' = committed uid (effectiveDate e signDate0)
            (supplementFlag e (effectiveDate e signDate0)) days fe fp s"
    by blast
  with inv show ?thesis by (simp add: summaryTracksLog_committed)
next
  case False
  with call have "s' = s" by (rule sign_not_ok_unchanged)
  with inv show ?thesis by simp
qed

lemma summaryTracksLog_signs:
  "summaryTracksLog s \<Longrightarrow> signs cs s = (rs, s') \<Longrightarrow> summaryTracksLog s'"
proof (induction cs arbitrary: s rs)
  case Nil
  then show ?case by simp
next
  case (Cons c cs)
  obtain e uid signDate0 where c: "c = (e, uid, signDate0)" by (cases c) auto
  obtain r s1 where one: "sign e uid signDate0 s = (r, s1)" by (cases "sign e uid signDate0 s")
  obtain rs1 s2 where rest: "signs cs s1 = (rs1, s2)" by (cases "signs cs s1")
  from Cons.prems(2) c one rest have "s' = s2" by simp
  moreover have "summaryTracksLog s1"
    using Cons.prems(1) one by (rule summaryTracksLog_sign)
  ultimately show ?case using Cons.IH rest by blast
qed

text \<open>After any run of calls on a fresh database, for any users and dates and whatever
  the calls returned: a user's \<^verbatim>\<open>totalSignDays\<close> is the number of the user's log rows, and
  \<^verbatim>\<open>monthSignDays\<close> is the length of the newest run of rows in \<^verbatim>\<open>currentMonth\<close>, which is
  at most the number of the rows in that month.\<close>

lemma signs_summary_counts:
  assumes run: "signs cs emptyDB = (rs, s)" and row: "userSignSummary s uid = Some row"
  shows "sum_totalSignDays row = int (length (userRows s uid)) \<and>
         sum_monthSignDays row = int (latestMonthRun s uid (sum_currentMonth row)) \<and>
         sum_monthSignDays row \<le> int (rowsInMonth s uid (sum_currentMonth row))"
proof -
  have "summaryTracksLog s"
    using summaryTracksLog_empty run by (rule summaryTracksLog_signs)
  with row have
    tot: "sum_totalSignDays row = int (length (userRows s uid))" and
    mon: "sum_monthSignDays row = int (latestMonthRun s uid (sum_currentMonth row))"
    unfolding summaryTracksLog_def by (auto split: option.splits dest: spec[of _ uid])
  have "latestMonthRun s uid (sum_currentMonth row) \<le> rowsInMonth s uid (sum_currentMonth row)"
    unfolding latestMonthRun_def rowsInMonth_def
    using length_takeWhile_le_filter[of "\<lambda>r. take 7 (log_signDate r) = sum_currentMonth row"
        "rev (userRows s uid)"]
    by (simp add: rev_filter[symmetric])
  with tot mon show ?thesis by simp
qed

subsection \<open>The calendar\<close>

lemma month_cases:
  assumes "1 \<le> m" "m \<le> (12::nat)"
  shows "m = 1 \<or> m = 2 \<or> m = 3 \<or> m = 4 \<or> m = 5 \<or> m = 6 \<or> m = 7 \<or> m = 8 \<or> m = 9 \<or>
         m = 10 \<or> m = 11 \<or> m = 12"
  using assms by arith















subsection \<open>Dates as strings\<close>

lemma digitVal_digitChar: "digitVal (digitChar n) = Some (n mod 10)"
proof -
  define k where "k = n mod 10"
  have "k < 10" by (simp add: k_def)
  then have "k = 0 \<or> k = 1 \<or> k = 2 \<or> k = 3 \<or> k = 4 \<or> k = 5 \<or> k = 6 \<or> k = 7 \<or> k = 8 \<or> k = 9"
    by arith
  then have "digitVal (''0123456789'' ! k) = Some k"
    by (elim disjE) (simp_all add: digitVal_def Let_def)
  then show ?thesis by (simp add: digitChar_def k_def)
qed

lemma two_digits:
  assumes "n < 100"
  shows "digitsVal 0 [digitChar (n div 10), digitChar n] = Some n"
proof -
  from assms have "n div 10 < 10" by simp
  then have "n div 10 mod 10 = n div 10" by simp
  then show ?thesis by (simp add: digitVal_digitChar)
qed

lemma four_digits:
  assumes "n < 10000"
  shows "digitsVal 0 [digitChar (n div 1000), digitChar (n div 100), digitChar (n div 10),
           digitChar n] = Some n"
proof -
  define a where "a = n div 10"
  define b where "b = a div 10"
  define c where "c = b div 10"
  have h: "n div 100 = b" "n div 1000 = c"
    by (simp_all add: a_def b_def c_def div_mult2_eq)
  from assms have "c < 10" unfolding h(2)[symmetric] by simp
  then have c: "c mod 10 = c" by simp
  have n: "n = 10 * a + n mod 10" and a: "a = 10 * b + a mod 10" and b: "b = 10 * c + b mod 10"
    by (simp_all add: a_def b_def c_def)
  have "10 * (10 * (10 * c + b mod 10) + a mod 10) + n mod 10 = n"
    using n a b by simp
  then show ?thesis
    unfolding h a_def[symmetric] by (simp add: digitVal_digitChar c)
qed

lemma daysInMonth_le: "daysInMonth y m \<le> 31"
  by (simp add: daysInMonth_def)

lemma strptime_strftime:
  assumes v: "validDate ymd"
  shows "strptime (strftime ymd) = Inr ymd"
proof -
  obtain y m d where ymd: "ymd = (y, m, d)" by (cases ymd) auto
  from v ymd have b: "1 \<le> y" "y \<le> 9999" "1 \<le> m" "m \<le> 12" "1 \<le> d" "d \<le> daysInMonth y m"
    by (simp_all add: validDate_def)
  from b daysInMonth_le[of y m] have d31: "d \<le> 31" by simp
  have yy: "digitsVal 0 [digitChar (y div 1000), digitChar (y div 100), digitChar (y div 10),
      digitChar y] = Some y"
    using b by (intro four_digits) simp
  have mm: "digitsVal 0 [digitChar (m div 10), digitChar m] = Some m"
    using b by (intro two_digits) simp
  have dd: "digitsVal 0 [digitChar (d div 10), digitChar d] = Some d"
    using d31 by (intro two_digits) simp
  show ?thesis
    unfolding ymd strptime_def strftime_def using b yy mm dd by simp
qed

lemma strftime_inj:
  assumes p: "validDate p" and q: "validDate q" and eq: "strftime p = strftime q"
  shows "p = q"
proof -
  have "Inr p = strptime (strftime p)" using p by (simp add: strptime_strftime)
  also have "\<dots> = strptime (strftime q)" by (simp only: eq)
  also have "\<dots> = Inr q" using q by (simp add: strptime_strftime)
  finally show ?thesis by simp
qed


lemma digitsVal_last_digit:
  "digitsVal acc (cs @ [c]) = Some n \<Longrightarrow> digitVal c \<noteq> None"
  by (induction cs arbitrary: acc) (auto split: option.splits)

lemma signAfterDigit_at:
  "Suc i < length s \<Longrightarrow> digitVal (s ! i) \<noteq> None \<Longrightarrow> s ! Suc i = CHR ''-''
     \<Longrightarrow> signAfterDigit s"
proof (induction s arbitrary: i rule: signAfterDigit.induct)
  case (1 a b cs)
  then show ?case by (cases i) auto
qed simp_all

text \<open>Every string that \<^verbatim>\<open>strptime\<close> takes for a date is kept as text by the database.\<close>

lemma date_keptAsText:
  assumes "strptime s = Inr ymd"
  shows "keptAsText s"
proof -
  from assms have l: "length s = 10" and dash: "s ! 4 = CHR ''-''"
    by (auto simp: strptime_def split: if_splits)
  from assms l dash obtain y where y: "digitsVal 0 (take 4 s) = Some y"
    by (auto simp: strptime_def split: if_splits option.splits)
  from l have "take 4 s = take 3 s @ [s ! 3]"
    by (simp add: take_Suc_conv_app_nth[of 3 s, simplified] numeral_eq_Suc take_Suc_conv_app_nth)
  with y have "digitVal (s ! 3) \<noteq> None"
    using digitsVal_last_digit[of 0 "take 3 s" "s ! 3" y] by simp
  with l dash have "signAfterDigit s"
    using signAfterDigit_at[of 3 s] by simp
  then show ?thesis by (simp add: keptAsText_def)
qed

section \<open>The claims\<close>

subsection \<open>C1: the counters of the summary\<close>

text \<open>
  Claim C1. After a run of successful sign-ins of a user, \<^verbatim>\<open>totalSignDays\<close> is the number
  of the user's log rows and \<^verbatim>\<open>monthSignDays\<close> is the number of those rows whose date lies
  in \<^verbatim>\<open>currentMonth\<close>. The first half holds (lemma \<open>signs_summary_counts\<close>). The second
  half fails when a user comes back to a month: \<^verbatim>\<open>u1\<close> signs on 2025-05-01, supplements
  2025-04-30 and signs on 2025-05-02; all three calls succeed, the summary then says
  month 2025-05 with \<open>1\<close> sign-in, and the log holds \<open>2\<close> rows of that month, which is also
  what \<^verbatim>\<open>getUserSignCountByDate\<close> counts.
\<close>

theorem month_counter_restarts_on_return:
  "fst (signs backAndForth emptyDB) = [1, 1, 1] \<and>
   userSignSummary (snd (signs backAndForth emptyDB)) ''u1'' =
     Some \<lparr>sum_totalSignDays = 3, sum_currentMonth = ''2025-05'', sum_monthSignDays = 1,
           sum_lastSignDate = Some ''2025-05-02'', sum_continuousDays = 1,
           sum_supplementCount = 1\<rparr> \<and>
   length (userRows (snd (signs backAndForth emptyDB)) ''u1'') = 3 \<and>
   rowsInMonth (snd (signs backAndForth emptyDB)) ''u1'' ''2025-05'' = 2 \<and>
   getUserSignCountByDate {} (snd (signs backAndForth emptyDB)) ''u1'' ''2025-05'' = 2"
  unfolding backAndForth_def by (simp add: sign_eval userRows_def rowsInMonth_def)

subsection \<open>C3: the streak rule\<close>



subsection \<open>C2: the reward\<close>



subsection \<open>C5: signing twice\<close>

text \<open>
  Claim C5. When no storage access raises, the clock gives a date of the calendar and the
  user has no log row for the date yet, the first of two calls for the same user and date
  returns \<open>1\<close> (success) and the second returns \<open>2\<close> (already signed) and leaves the storage
  -- log, summary and balances -- exactly as the first call left it. The second call may
  draw other random numbers, and only its \<^verbatim>\<open>hasSigned\<close> query has to work.
\<close>

theorem sign_twice:
  assumes quiet: "faults e1 = {}"
    and query: "HasSignedQuery \<notin> faults e2"
    and same: "effectiveDate e2 signDate0 = effectiveDate e1 signDate0"
    and fresh: "\<not> hasSigned {} s uid (effectiveDate e1 signDate0)"
    and clock: "prev_date (today2 e1) = Inr yesterday"
  shows "\<exists>s1. sign e1 uid signDate0 s = (1, s1) \<and> sign e2 uid signDate0 s1 = (2, s1)"
proof -
  let ?d = "effectiveDate e1 signDate0"
  let ?i = "supplementFlag e1 ?d"
  have "?i \<noteq> 0 \<or> userSignSummary s uid = None \<or> (\<exists>p. prev_date ?d = Inr p)"
    using clock by (auto simp: supplementFlag_def split: if_splits)
  then obtain days where c: "current_continuous_days (userSignSummary s uid) ?i ?d = Inr days"
    using ccd_total by blast
  obtain fe fp where r: "signReward e1 days ?i = Inr (fe, fp)"
    using signReward_total by blast
  from fresh have nf: "find (\<lambda>r. log_uid r = uid \<and> log_signDate r = ?d) (userSignLog s) = None"
    by (simp add: hasSigned_def)
  let ?s1 = "committed uid ?d ?i days fe fp s"
  have first: "sign e1 uid signDate0 s = (1, ?s1)"
    unfolding sign_ok_iff transaction_ok_iff signWrites_ok_iff
    using quiet fresh c r nf by auto
  have "find (\<lambda>r. log_uid r = uid \<and> log_signDate r = ?d) (userSignLog ?s1) \<noteq> None"
    using find_append_new[OF nf, of "\<lparr>log_uid = uid, log_signDate = ?d,
        log_isSupplement = ?i, log_exp = fe, log_point = fp\<rparr>"]
    by (simp add: committed_def)
  then have "hasSigned (faults e2) ?s1 uid (effectiveDate e2 signDate0)"
    using query same by (simp add: hasSigned_def)
  then have second: "sign e2 uid signDate0 ?s1 = (2, ?s1)"
    by (simp add: sign_def Let_def)
  from first second show ?thesis by blast
qed

theorem sign_twice_witness:
  "faults (quietDay ''2025-05-02'' 0 0 0 0) = {} \<and>
   \<not> hasSigned {} firstDay ''u1'' (effectiveDate (quietDay ''2025-05-02'' 0 0 0 0) []) \<and>
   prev_date (today2 (quietDay ''2025-05-02'' 0 0 0 0)) = Inr ''2025-05-01'' \<and>
   (\<exists>s1. sign (quietDay ''2025-05-02'' 0 0 0 0) ''u1'' [] firstDay = (1, s1) \<and>
         sign (quietDay ''2025-05-02'' 40 1000 3 77) ''u1'' [] s1 = (2, s1))"
proof -
  let ?e1 = "quietDay ''2025-05-02'' 0 0 0 0"
  let ?e2 = "quietDay ''2025-05-02'' 40 1000 3 77"
  have quiet: "faults ?e1 = {}" by (simp add: quietDay_def)
  have query: "HasSignedQuery \<notin> faults ?e2" by (simp add: quietDay_def)
  have same: "effectiveDate ?e2 [] = effectiveDate ?e1 []"
    by (simp add: quietDay_def effectiveDate_def)
  have fresh: "\<not> hasSigned {} firstDay ''u1'' (effectiveDate ?e1 [])"
    by (simp add: firstDay_eq hasSigned_def effectiveDate_def quietDay_def)
  have clock: "prev_date (today2 ?e1) = Inr ''2025-05-01''"
    by (simp add: quietDay_def prev_date_def strptime_def minusOneDay_def strftime_def
        digitChar_def digitVal_def daysInMonth_def isLeap_def)
  from sign_twice[OF quiet query same fresh clock] quiet fresh clock
  show ?thesis by blast
qed

subsection \<open>C6: a failing write\<close>

text \<open>
  Claim C6. A call that gets past the \<^verbatim>\<open>hasSigned\<close> check and in which a step of the write
  sequence raises -- the begin of the transaction, the log insert, the summary write, a
  read or a store of a balance, the commit -- returns \<open>0\<close> and leaves the storage as it
  found it: no log row, no summary change, no balance change. The rollback is that of the
  transaction as the spec describes it.
\<close>

theorem sign_failure_atomic:
  assumes reach: "\<not> hasSigned (faults e) s uid (effectiveDate e signDate0)"
    and fault: "faults e \<inter> {TxBegin, LogInsert, SummaryWrite, LedgerGetExp, LedgerSetExp,
                 LedgerGetPoint, LedgerSetPoint, TxCommit} \<noteq> {}"
  shows "sign e uid signDate0 s = (0, s)"
proof -
  have r: "fst (sign e uid signDate0 s) \<noteq> 2"
    using reach
    by (auto simp: sign_def Let_def split: sum.splits prod.splits option.splits)
  have "fst (sign e uid signDate0 s) \<noteq> 1"
  proof
    assume "fst (sign e uid signDate0 s) = 1"
    then have "sign e uid signDate0 s = (1, snd (sign e uid signDate0 s))"
      by (metis prod.collapse)
    then obtain days fe fp where "transaction (faults e)
          (signWrites (faults e) uid (effectiveDate e signDate0)
             (supplementFlag e (effectiveDate e signDate0)) days (userSignSummary s uid) fe fp) s
          = (None, snd (sign e uid signDate0 s))"
      unfolding sign_ok_iff by blast
    with transaction_faulty[OF fault] show False by (metis option.distinct(1) prod.inject)
  qed
  with r sign_result_range[of e uid signDate0 s]
  have 0: "fst (sign e uid signDate0 s) = 0" by auto
  then have "snd (sign e uid signDate0 s) = s"
    using sign_not_ok_unchanged[of e uid signDate0 s 0 "snd (sign e uid signDate0 s)"]
    by (metis prod.collapse zero_neq_one)
  with 0 show ?thesis by (metis prod.collapse)
qed

text \<open>An instance: the store of the point balance raises after the log row, the summary
  row and the experience balance were written inside the transaction.\<close>

theorem sign_failure_atomic_witness:
  "\<not> hasSigned (faults pointStoreFails) firstDay ''u1'' (effectiveDate pointStoreFails []) \<and>
   faults pointStoreFails \<inter> {TxBegin, LogInsert, SummaryWrite, LedgerGetExp, LedgerSetExp,
      LedgerGetPoint, LedgerSetPoint, TxCommit} \<noteq> {} \<and>
   length (userSignLog (snd (signWrites (faults pointStoreFails) ''u1'' ''2025-05-02'' 0 2
      (userSignSummary firstDay ''u1'') 22 809 firstDay))) = 2 \<and>
   sign pointStoreFails ''u1'' [] firstDay = (0, firstDay)"
proof -
  have reach: "\<not> hasSigned (faults pointStoreFails) firstDay ''u1''
      (effectiveDate pointStoreFails [])"
    by (simp add: firstDay_eq hasSigned_def effectiveDate_def pointStoreFails_def)
  have fault: "faults pointStoreFails \<inter> {TxBegin, LogInsert, SummaryWrite, LedgerGetExp,
      LedgerSetExp, LedgerGetPoint, LedgerSetPoint, TxCommit} \<noteq> {}"
    by (simp add: pointStoreFails_def)
  have partial: "length (userSignLog (snd (signWrites (faults pointStoreFails) ''u1''
      ''2025-05-02'' 0 2 (userSignSummary firstDay ''u1'') 22 809 firstDay))) = 2"
    by (simp add: firstDay_eq pointStoreFails_def signWrites_def andThen_def insertLog_def
        writeSummary_def summaryValues_def creditExp_def creditPoint_def Let_def)
  from sign_failure_atomic[OF reach fault] reach fault partial show ?thesis by blast
qed

subsection \<open>C4: a supplement and the stored streak\<close>

text \<open>
  Claim C4 says that a supplement leaves the stored \<^verbatim>\<open>continuousDays\<close> of an existing
  summary row unchanged. The \<^verbatim>\<open>UPDATE\<close> of lines 215-226 writes
  \<^verbatim>\<open>current_continuous_days\<close> for every event, and for a supplement that value is \<open>1\<close>:
  after two sign-ins on consecutive days the stored streak is \<open>2\<close>, and supplementing
  2025-04-20 on 2025-05-03 makes it \<open>1\<close>.
\<close>

theorem supplement_keeps_streak_counterexample:
  "map_option sum_continuousDays (userSignSummary twoDayStreak ''u1'') = Some 2 \<and>
   fst (sign (quietDay ''2025-05-03'' 0 0 0 0) ''u1'' ''2025-04-20'' twoDayStreak) = 1 \<and>
   map_option sum_continuousDays
     (userSignSummary
        (snd (sign (quietDay ''2025-05-03'' 0 0 0 0) ''u1'' ''2025-04-20'' twoDayStreak)) ''u1'')
     = Some 1"
  unfolding twoDayStreak_def by (simp add: sign_eval)

text \<open>
  Claim C4, amended. A successful supplement by a user who has a summary row sets the
  stored \<^verbatim>\<open>continuousDays\<close> to \<open>1\<close> (so it stays as it was only when it was \<open>1\<close>), sets
  \<^verbatim>\<open>lastSignDate\<close> to the credited date and adds one to \<^verbatim>\<open>supplementCount\<close>; the total and
  the month counter move as for any sign-in.
\<close>

theorem supplement_sets_streak_to_one:
  assumes ok: "sign e uid signDate0 s = (1, s')"
    and supp: "effectiveDate e signDate0 \<noteq> today2 e"
    and had: "userSignSummary s uid = Some row"
  shows "userSignSummary s' uid =
     Some \<lparr>sum_totalSignDays = sum_totalSignDays row + 1,
           sum_currentMonth = take 7 (effectiveDate e signDate0),
           sum_monthSignDays =
             (if sum_currentMonth row = take 7 (effectiveDate e signDate0)
              then sum_monthSignDays row + 1 else 1),
           sum_lastSignDate = Some (effectiveDate e signDate0),
           sum_continuousDays = 1,
           sum_supplementCount = sum_supplementCount row + 1\<rparr>"
proof -
  let ?d = "effectiveDate e signDate0"
  have i: "supplementFlag e ?d = 1" using supp by (simp add: supplementFlag_def)
  from sign_ok_committed[OF ok] obtain days fe fp where
    c: "current_continuous_days (userSignSummary s uid) 1 ?d = Inr days" and
    s': "s' = committed uid ?d 1 days fe fp s"
    unfolding i by blast
  from c have d1: "days = 1" by (simp add: ccd_supplement)
  from s' show ?thesis by (simp add: committed_def summaryValues_def had d1 Let_def)
qed

theorem supplement_sets_streak_to_one_witness:
  "sign (quietDay ''2025-05-03'' 0 0 0 0) ''u1'' ''2025-04-20'' twoDayStreak
     = (1, snd (sign (quietDay ''2025-05-03'' 0 0 0 0) ''u1'' ''2025-04-20'' twoDayStreak)) \<and>
   effectiveDate (quietDay ''2025-05-03'' 0 0 0 0) ''2025-04-20''
     \<noteq> today2 (quietDay ''2025-05-03'' 0 0 0 0) \<and>
   userSignSummary twoDayStreak ''u1'' =
     Some \<lparr>sum_totalSignDays = 2, sum_currentMonth = ''2025-05'', sum_monthSignDays = 2,
           sum_lastSignDate = Some ''2025-05-02'', sum_continuousDays = 2,
           sum_supplementCount = 0\<rparr> \<and>
   userSignSummary
     (snd (sign (quietDay ''2025-05-03'' 0 0 0 0) ''u1'' ''2025-04-20'' twoDayStreak)) ''u1'' =
     Some \<lparr>sum_totalSignDays = 3, sum_currentMonth = ''2025-04'', sum_monthSignDays = 1,
           sum_lastSignDate = Some ''2025-04-20'', sum_continuousDays = 1,
           sum_supplementCount = 1\<rparr>"
proof -
  let ?e = "quietDay ''2025-05-03'' 0 0 0 0"
  let ?row = "\<lparr>sum_totalSignDays = 2, sum_currentMonth = ''2025-05'', sum_monthSignDays = 2,
           sum_lastSignDate = Some ''2025-05-02'', sum_continuousDays = 2,
           sum_supplementCount = 0\<rparr>"
  have "fst (sign ?e ''u1'' ''2025-04-20'' twoDayStreak) = 1"
    unfolding twoDayStreak_def by (simp add: sign_eval)
  then have ok: "sign ?e ''u1'' ''2025-04-20'' twoDayStreak
      = (1, snd (sign ?e ''u1'' ''2025-04-20'' twoDayStreak))"
    by (cases "sign ?e ''u1'' ''2025-04-20'' twoDayStreak") simp
  have supp: "effectiveDate ?e ''2025-04-20'' \<noteq> today2 ?e"
    by (simp add: effectiveDate_def quietDay_def)
  have d: "effectiveDate ?e ''2025-04-20'' = ''2025-04-20''"
    by (simp add: effectiveDate_def)
  have had: "userSignSummary twoDayStreak ''u1'' = Some ?row"
    unfolding twoDayStreak_def by (simp add: sign_eval)
  from supplement_sets_streak_to_one[OF ok supp had]
  have "userSignSummary (snd (sign ?e ''u1'' ''2025-04-20'' twoDayStreak)) ''u1'' =
     Some \<lparr>sum_totalSignDays = 3, sum_currentMonth = ''2025-04'', sum_monthSignDays = 1,
           sum_lastSignDate = Some ''2025-04-20'', sum_continuousDays = 1,
           sum_supplementCount = 1\<rparr>"
    by (simp add: d)
  with ok supp had show ?thesis by blast
qed

subsection \<open>C7: what the result carries\<close>




subsection \<open>C8: a malformed date\<close>

text \<open>
  Claim C8 says that a malformed date is rejected before any storage access. \<^verbatim>\<open>sign\<close>
  has no check of the date: the string \<^verbatim>\<open>05/27/2025\<close>, which \<^verbatim>\<open>strptime\<close> refuses, is
  looked up in the log, taken for a supplement, stored as the \<^verbatim>\<open>signDate\<close> of a new row
  and answered with \<open>1\<close>; the same call repeated is answered with \<open>2\<close> from the log.
\<close>

theorem sign_rejects_malformed_date_counterexample:
  "strptime ''05/27/2025'' = Inl ValueError \<and>
   fst (sign (quietDay ''2025-05-27'' 0 0 0 0) ''u1'' ''05/27/2025'' emptyDB) = 1 \<and>
   map log_signDate
     (userSignLog (snd (sign (quietDay ''2025-05-27'' 0 0 0 0) ''u1'' ''05/27/2025'' emptyDB)))
     = [''05/27/2025''] \<and>
   fst (sign (quietDay ''2025-05-27'' 0 0 0 0) ''u1'' ''05/27/2025''
          (snd (sign (quietDay ''2025-05-27'' 0 0 0 0) ''u1'' ''05/27/2025'' emptyDB))) = 2"
  by (simp add: sign_eval)

text \<open>
  Claim C8, amended. \<^verbatim>\<open>sign\<close> does not validate its date argument. For a non-empty
  string that is no date and that the database keeps as text (it holds a character no
  numeric literal has, or a sign right after a digit), on a day whose own string is a
  date, and with no storage access raising, the call first consults the log: it returns
  \<open>2\<close> when a row with that string exists for the user, and otherwise returns \<open>1\<close> after
  storing the string unchanged as the \<^verbatim>\<open>signDate\<close> of a supplement row and as the
  \<^verbatim>\<open>lastSignDate\<close> of the summary. (A string that is a numeric literal, such as
  \<^verbatim>\<open>20250527\<close> or \<^verbatim>\<open>1e3\<close>, is stored in these columns as a number; nothing is said
  about it here.)
\<close>

theorem sign_takes_malformed_date:
  assumes bad: "strptime signDate = Inl ValueError"
    and kept: "keptAsText signDate"
    and today: "strptime (today2 e) = Inr ymd"
    and given: "signDate \<noteq> []"
    and quiet: "faults e = {}"
  shows "if hasSigned {} s uid signDate then sign e uid signDate s = (2, s)
         else (\<exists>s' final_exp final_point.
                 sign e uid signDate s = (1, s') \<and>
                 userSignLog s' = userSignLog s @
                   [\<lparr>log_uid = uid, log_signDate = signDate, log_isSupplement = 1,
                     log_exp = final_exp, log_point = final_point\<rparr>] \<and>
                 map_option sum_lastSignDate (userSignSummary s' uid) = Some (Some signDate))"
proof (cases "hasSigned {} s uid signDate")
  case True
  then show ?thesis using given quiet by (simp add: sign_def effectiveDate_def Let_def)
next
  case False
  have d: "effectiveDate e signDate = signDate" using given by (simp add: effectiveDate_def)
  have "signDate \<noteq> today2 e" using bad today by auto
  then have i: "supplementFlag e signDate = 1" by (simp add: supplementFlag_def)
  have c: "current_continuous_days (userSignSummary s uid) 1 signDate = Inr 1"
    by (simp add: ccd_supplement)
  obtain fe fp where r: "signReward e 1 1 = Inr (fe, fp)" using signReward_total by blast
  from False
  have nf: "find (\<lambda>r. log_uid r = uid \<and> log_signDate r = signDate) (userSignLog s) = None"
    by (simp add: hasSigned_def)
  have "sign e uid signDate s = (1, committed uid signDate 1 1 fe fp s)"
    unfolding sign_ok_iff transaction_ok_iff signWrites_ok_iff d i
    using quiet False c r nf by auto
  moreover have "userSignLog (committed uid signDate 1 1 fe fp s) = userSignLog s @
                   [\<lparr>log_uid = uid, log_signDate = signDate, log_isSupplement = 1,
                     log_exp = fe, log_point = fp\<rparr>]"
    by (simp add: committed_def)
  moreover have "map_option sum_lastSignDate
      (userSignSummary (committed uid signDate 1 1 fe fp s) uid) = Some (Some signDate)"
    by (simp add: committed_def summaryValues_def Let_def split: option.splits)
  ultimately show ?thesis using False by auto
qed

theorem sign_takes_malformed_date_witness:
  "strptime ''05/27/2025'' = Inl ValueError \<and>
   keptAsText ''05/27/2025'' \<and>
   strptime (today2 (quietDay ''2025-05-27'' 0 0 0 0)) = Inr (2025, 5, 27) \<and>
   faults (quietDay ''2025-05-27'' 0 0 0 0) = {} \<and>
   \<not> hasSigned {} firstDay ''u1'' ''05/27/2025'' \<and>
   (\<exists>s' final_exp final_point.
      sign (quietDay ''2025-05-27'' 0 0 0 0) ''u1'' ''05/27/2025'' firstDay = (1, s') \<and>
      userSignLog s' = userSignLog firstDay @
        [\<lparr>log_uid = ''u1'', log_signDate = ''05/27/2025'', log_isSupplement = 1,
          log_exp = final_exp, log_point = final_point\<rparr>] \<and>
      map_option sum_lastSignDate (userSignSummary s' ''u1'') = Some (Some ''05/27/2025''))"
proof -
  let ?e = "quietDay ''2025-05-27'' 0 0 0 0"
  have bad: "strptime ''05/27/2025'' = Inl ValueError"
    by (simp add: strptime_def)
  have kept: "keptAsText ''05/27/2025''"
    by (simp add: keptAsText_def numericChar_def Let_def)
  have today: "strptime (today2 ?e) = Inr (2025, 5, 27)"
    by (simp add: quietDay_def strptime_def digitVal_def daysInMonth_def isLeap_def)
  have given: "''05/27/2025'' \<noteq> []" by simp
  have quiet: "faults ?e = {}" by (simp add: quietDay_def)
  have fresh: "\<not> hasSigned {} firstDay ''u1'' ''05/27/2025''"
    by (simp add: firstDay_eq hasSigned_def)
  from sign_takes_malformed_date[OF bad kept today given quiet, of firstDay "''u1''"] fresh
  have "\<exists>s' final_exp final_point.
      sign ?e ''u1'' ''05/27/2025'' firstDay = (1, s') \<and>
      userSignLog s' = userSignLog firstDay @
        [\<lparr>log_uid = ''u1'', log_signDate = ''05/27/2025'', log_isSupplement = 1,
          log_exp = final_exp, log_point = final_point\<rparr>] \<and>
      map_option sum_lastSignDate (userSignSummary s' ''u1'') = Some (Some ''05/27/2025'')"
    by simp
  with bad kept today quiet fresh show ?thesis by blast
qed

subsection \<open>C10: a fault in the query of \<^verbatim>\<open>hasSigned\<close>\<close>

text \<open>
  Claim C10. When the query inside \<^verbatim>\<open>hasSigned\<close> raises, \<^verbatim>\<open>hasSigned\<close> returns \<^verbatim>\<open>False\<close>
  for every user and date, the value it gives on a database in which nobody has signed.
  So \<^verbatim>\<open>sign\<close> does not return \<open>2\<close> during such a fault, whatever the log holds: its
  check passes, and when the row does exist the call goes on to the insert and ends
  with \<open>0\<close> and the storage unchanged.
\<close>

theorem hasSigned_fault_is_False:
  assumes fault: "HasSignedQuery \<in> faults e"
  shows "hasSigned (faults e) s uid signDate = False \<and>
         hasSigned (faults e) s uid signDate = hasSigned {} emptyDB uid signDate \<and>
         fst (sign e uid signDate0 s) \<noteq> 2 \<and>
         (hasSigned {} s uid (effectiveDate e signDate0) \<longrightarrow> sign e uid signDate0 s = (0, s))"
proof -
  have a: "hasSigned (faults e) s uid signDate = False"
    using fault by (simp add: hasSigned_def)
  have b: "hasSigned {} emptyDB uid signDate = False"
    by (simp add: hasSigned_def emptyDB_def)
  have h: "\<not> hasSigned (faults e) s uid (effectiveDate e signDate0)"
    using fault by (simp add: hasSigned_def)
  then have c: "fst (sign e uid signDate0 s) \<noteq> 2"
    by (auto simp: sign_def Let_def split: sum.splits prod.splits option.splits)
  have d: "sign e uid signDate0 s = (0, s)"
    if row: "hasSigned {} s uid (effectiveDate e signDate0)"
  proof -
    have "fst (sign e uid signDate0 s) \<noteq> 1"
    proof
      assume "fst (sign e uid signDate0 s) = 1"
      then have "sign e uid signDate0 s = (1, snd (sign e uid signDate0 s))"
        by (metis prod.collapse)
      from sign_ok_committed[OF this]
      have "find (\<lambda>r. log_uid r = uid \<and> log_signDate r = effectiveDate e signDate0)
              (userSignLog s) = None"
        by blast
      with row show False by (simp add: hasSigned_def)
    qed
    with c sign_result_range[of e uid signDate0 s]
    have 0: "fst (sign e uid signDate0 s) = 0" by auto
    then have "snd (sign e uid signDate0 s) = s"
      using sign_not_ok_unchanged[of e uid signDate0 s 0 "snd (sign e uid signDate0 s)"]
      by (metis prod.collapse zero_neq_one)
    with 0 show ?thesis by (metis prod.collapse)
  qed
  from a b c d show ?thesis by simp
qed

theorem hasSigned_fault_is_False_witness:
  "HasSignedQuery \<in> faults signedQueryFails \<and>
   hasSigned {} firstDay ''u1'' ''2025-05-01'' \<and>
   hasSigned (faults signedQueryFails) firstDay ''u1'' ''2025-05-01'' = False \<and>
   hasSigned (faults signedQueryFails) firstDay ''u1'' ''2025-05-01''
     = hasSigned {} emptyDB ''u1'' ''2025-05-01'' \<and>
   sign signedQueryFails ''u1'' ''2025-05-01'' firstDay = (0, firstDay)"
proof -
  have fault: "HasSignedQuery \<in> faults signedQueryFails"
    by (simp add: signedQueryFails_def)
  have row: "hasSigned {} firstDay ''u1'' ''2025-05-01''"
    by (simp add: firstDay_eq hasSigned_def)
  have d: "effectiveDate signedQueryFails ''2025-05-01'' = ''2025-05-01''"
    by (simp add: effectiveDate_def)
  from row d have row': "hasSigned {} firstDay ''u1''
      (effectiveDate signedQueryFails ''2025-05-01'')"
    by simp
  from hasSigned_fault_is_False[OF fault, of firstDay "''u1''" "''2025-05-01''" "''2025-05-01''"]
    row' row fault
  show ?thesis by blast
qed

end
